theory Spec2Isabelle
  imports Complex_Main "HOL-Library.Word" "HOL-Library.AList"
begin

unbundle bit_operations_syntax

section \<open>JavaScript strings and values\<close>

text \<open>
  A JavaScript string is a sequence of UTF-16 code units; a file holds bytes.
  ASCII literals are written through \<open>js\<close>.
\<close>

type_synonym jschar = "16 word"
type_synonym jsstring = "jschar list"
type_synonym byte = "8 word"

definition js :: "string \<Rightarrow> jsstring" where
  "js s = map (\<lambda>c. of_nat (of_char c)) s"

text \<open>
  The values \<open>JSON.parse\<close> can return, and \<open>undefined\<close> for a property that is not
  there. A number is a double, held by its exact value (both zeros are \<open>0\<close>).
  An object is the list of its own properties.
\<close>

datatype jsval =
    JUndefined
  | JNull
  | JBool bool
  | JNum rat
  | JStr jsstring
  | JArr "jsval list"
  | JObj "(jsstring \<times> jsval) list"

text \<open>ToBoolean.\<close>

fun truthy :: "jsval \<Rightarrow> bool" where
  "truthy JUndefined = False"
| "truthy JNull = False"
| "truthy (JBool b) = b"
| "truthy (JNum r) = (r \<noteq> 0)"
| "truthy (JStr s) = (s \<noteq> [])"
| "truthy (JArr xs) = True"
| "truthy (JObj kvs) = True"

text \<open>The operator \<open>a || b\<close>.\<close>

definition js_or :: "jsval \<Rightarrow> jsval \<Rightarrow> jsval" where
  "js_or a b = (if truthy a then a else b)"

text \<open>
  Property access \<open>d.key\<close>, for the keys the components read (none of them is
  inherited from a prototype). \<open>None\<close> is the TypeError of reading a property of
  \<open>null\<close> or \<open>undefined\<close>.
\<close>

fun get_prop :: "jsval \<Rightarrow> jsstring \<Rightarrow> jsval option" where
  "get_prop JUndefined k = None"
| "get_prop JNull k = None"
| "get_prop (JObj kvs) k = Some (case map_of kvs k of None \<Rightarrow> JUndefined | Some v \<Rightarrow> v)"
| "get_prop (JBool b) k = Some JUndefined"
| "get_prop (JNum r) k = Some JUndefined"
| "get_prop (JStr s) k = Some JUndefined"
| "get_prop (JArr xs) k = Some JUndefined"

section \<open>The session state of KycVerifier\<close>

text \<open>
  A \<open>File\<close>: its name, its \<open>type\<close> (the MIME type) and its content.
\<close>

record jsfile =
  name :: jsstring
  type :: jsstring
  bytes :: "byte list"

text \<open>
  The \<open>useState\<close> cells of the component. \<open>image\<close> is \<open>File | null\<close>,
  \<open>extractedData\<close> is whatever was last stored (\<open>null\<close> at first), \<open>error\<close> is
  \<open>string | null\<close>. \<open>useWebcam\<close> exists in the camera-enabled component only; the
  other component never reads or writes it.
\<close>

record session =
  image_st :: "jsfile option"
  extractedData :: jsval
  loading :: bool
  error :: "jsstring option"
  useWebcam :: bool

text \<open>
  The two components of the repository: the one with four identity fields and the
  camera, and the one with nationality and age. Their handlers differ in the prompt only.
\<close>

datatype variant = Detail | Summary

section \<open>handleImageChange and captureImage\<close>

text \<open>
  \<open>handleImageChange\<close>: \<open>e.target.files[0]\<close> is a file or \<open>undefined\<close>.
\<close>

definition handleImageChange :: "jsfile option \<Rightarrow> session \<Rightarrow> session" where
  "handleImageChange file0 s =
     (case file0 of
        None \<Rightarrow> s
      | Some f \<Rightarrow> s\<lparr>image_st := Some f, extractedData := JNull, error := None\<rparr>)"

text \<open>
  \<open>captureImage\<close>: \<open>imageSrc\<close> is the screenshot (a data URL) or \<open>null\<close>; an empty
  string is falsy as well. \<open>blob0\<close> is what \<open>fetch(imageSrc).then(res => res.blob())\<close>
  delivers, \<open>None\<close> when that promise rejects (the last \<open>then\<close> never runs).
\<close>

definition captureImage :: "jsstring option \<Rightarrow> byte list option \<Rightarrow> session \<Rightarrow> session" where
  "captureImage imageSrc blob0 s =
     (case imageSrc of
        None \<Rightarrow> s
      | Some src \<Rightarrow>
          if src = [] then s
          else (case blob0 of
                  None \<Rightarrow> s
                | Some blob \<Rightarrow>
                    s\<lparr>image_st := Some \<lparr>name = js ''webcam-capture.jpg'',
                                         type = js ''image/jpeg'',
                                         bytes = blob\<rparr>,
                      useWebcam := False\<rparr>))"

section \<open>String operations of the platform\<close>

text \<open>
  \<open>s.split(sep)\<close> for a separator of one code unit: the pieces between the
  separators, \<open>[""]\<close> for the empty string.
\<close>

fun split_on :: "'a \<Rightarrow> 'a list \<Rightarrow> 'a list list" where
  "split_on sep [] = [[]]"
| "split_on sep (c # cs) =
     (if c = sep then [] # split_on sep cs
      else (case split_on sep cs of
              [] \<Rightarrow> [[c]]
            | piece # pieces \<Rightarrow> (c # piece) # pieces))"

text \<open>\<open>a[i]\<close>: \<open>undefined\<close> (here \<open>None\<close>) beyond the end of the array.\<close>

definition nth_opt :: "'a list \<Rightarrow> nat \<Rightarrow> 'a option" where
  "nth_opt xs i = (if i < length xs then Some (xs ! i) else None)"

text \<open>
  \<open>s.replace(/pat/g, '')\<close> for a pattern that is a literal text: every match is
  deleted, the matches being found from left to right without overlap.
\<close>

fun remove_all :: "'a list \<Rightarrow> 'a list \<Rightarrow> 'a list" where
  "remove_all pat [] = []"
| "remove_all pat (c # cs) =
     (if pat \<noteq> [] \<and> take (length pat) (c # cs) = pat
      then remove_all pat (drop (length pat - 1) cs)
      else c # remove_all pat cs)"

text \<open>
  \<open>s.trim()\<close> removes white space and line terminators at both ends.
\<close>

definition is_js_space :: "jschar \<Rightarrow> bool" where
  "is_js_space c =
     (c \<in> {0x09, 0x0A, 0x0B, 0x0C, 0x0D, 0x20, 0xA0, 0x1680, 0x2028, 0x2029,
            0x202F, 0x205F, 0x3000, 0xFEFF}
      \<or> (0x2000 \<le> c \<and> c \<le> 0x200A))"

definition trim :: "jsstring \<Rightarrow> jsstring" where
  "trim s = rev (dropWhile is_js_space (rev (dropWhile is_js_space s)))"

section \<open>The Binary Encoder: fileToGenerativePart\<close>

text \<open>
  Modelled from the spec: \<open>FileReader.readAsDataURL\<close> is the browser's, not the
  repository's. The spec has it "read the binary content fully, encode as base64 text";
  the encoding is the one of RFC 4648, and the data URL is \<open>data:\<close>, the MIME type,
  \<open>;base64,\<close> and the payload (RFC 2397).
\<close>

definition b64_alphabet :: jsstring where
  "b64_alphabet = js ''ABCDEFGHIJKLMNOPQRSTUVWXYZabcdefghijklmnopqrstuvwxyz0123456789+/''"

definition b64_char :: "nat \<Rightarrow> jschar" where
  "b64_char n = b64_alphabet ! (n mod 64)"

definition b64_pad :: jschar where
  "b64_pad = 0x3D"

fun base64 :: "byte list \<Rightarrow> jsstring" where
  "base64 [] = []"
| "base64 [a] =
     (let x = unat a
      in [b64_char (x div 4), b64_char ((x mod 4) * 16), b64_pad, b64_pad])"
| "base64 [a, b] =
     (let x = unat a; y = unat b
      in [b64_char (x div 4), b64_char ((x mod 4) * 16 + y div 16),
          b64_char ((y mod 16) * 4), b64_pad])"
| "base64 (a # b # c # rest) =
     (let x = unat a; y = unat b; z = unat c
      in [b64_char (x div 4), b64_char ((x mod 4) * 16 + y div 16),
          b64_char ((y mod 16) * 4 + z div 64), b64_char (z mod 64)])
     @ base64 rest"

definition readAsDataURL :: "jsfile \<Rightarrow> jsstring" where
  "readAsDataURL f = js ''data:'' @ type f @ js '';base64,'' @ base64 (bytes f)"

text \<open>
  Modelled from the spec: the decoder of the round-trip law ("decoding the base64
  payload reproduces the original bytes"), which the repository does not contain. It is
  the strict decoder of RFC 4648: groups of four characters, padding in the last group
  only, unused bits zero. \<open>None\<close> is a text that is not base64.
\<close>

definition b64_value :: "jschar \<Rightarrow> nat option" where
  "b64_value c = map_of (zip b64_alphabet [0..<64]) c"

fun base64_decode :: "jsstring \<Rightarrow> byte list option" where
  "base64_decode [] = Some []"
| "base64_decode (c0 # c1 # c2 # c3 # rest) =
     (case (b64_value c0, b64_value c1) of
        (Some v0, Some v1) \<Rightarrow>
          if c2 = b64_pad then
            (if c3 = b64_pad \<and> rest = [] \<and> v1 mod 16 = 0
             then Some [of_nat (v0 * 4 + v1 div 16)] else None)
          else
            (case b64_value c2 of
               None \<Rightarrow> None
             | Some v2 \<Rightarrow>
                 if c3 = b64_pad then
                   (if rest = [] \<and> v2 mod 4 = 0
                    then Some [of_nat (v0 * 4 + v1 div 16),
                               of_nat ((v1 mod 16) * 16 + v2 div 4)]
                    else None)
                 else
                   (case b64_value c3 of
                      None \<Rightarrow> None
                    | Some v3 \<Rightarrow>
                        map_option
                          (\<lambda>bs. [of_nat (v0 * 4 + v1 div 16),
                                 of_nat ((v1 mod 16) * 16 + v2 div 4),
                                 of_nat ((v2 mod 4) * 64 + v3)] @ bs)
                          (base64_decode rest)))
      | _ \<Rightarrow> None)"
| "base64_decode _ = None"

text \<open>
  The part sent to the model, \<open>{inlineData: {data, mimeType}}\<close>. \<open>data\<close> is
  \<open>reader.result.split(',')[1]\<close>, which is \<open>undefined\<close> when the result has no comma.
\<close>

record inlineData =
  data :: "jsstring option"
  mimeType :: jsstring

definition fileToGenerativePart :: "jsfile \<Rightarrow> inlineData" where
  "fileToGenerativePart f =
     \<lparr>data = nth_opt (split_on 0x2C (readAsDataURL f)) 1, mimeType = type f\<rparr>"

section \<open>handleVerifyClick\<close>

text \<open>
  The request of one attempt, \<open>model.generateContent([prompt, imagePart])\<close>. The prompt
  is a constant template literal of each component, with nothing interpolated, and is
  held by the component it belongs to.
\<close>

record request =
  prompt :: variant
  imagePart :: inlineData

text \<open>
  What the handler calls outside the repository. \<open>generateContent\<close> is the whole of
  \<open>model.generateContent(...)\<close>, \<open>result.response\<close> and \<open>response.text()\<close>: the
  completion text, or \<open>None\<close> when any of them throws or rejects. \<open>JSON_parse\<close> is
  \<open>JSON.parse\<close>, \<open>None\<close> being its SyntaxError.
\<close>

record platform =
  generateContent :: "request \<Rightarrow> jsstring option"
  JSON_parse :: "jsstring \<Rightarrow> jsval option"

definition no_image_message :: jsstring where
  "no_image_message = js ''Por favor, selecciona una imagen primero.''"

definition processing_error_message :: jsstring where
  "processing_error_message =
     js ''Ocurri'' @ [0xF3] @ js '' un error al procesar la imagen. Aseg'' @ [0xFA]
     @ js ''rate de que la imagen sea clara y que la API key sea correcta.''"

text \<open>
  \<open>text.replace(/```json/g, '').replace(/```/g, '').trim()\<close>
\<close>

definition jsonString :: "jsstring \<Rightarrow> jsstring" where
  "jsonString text = trim (remove_all (js ''```'') (remove_all (js ''```json'') text))"

text \<open>
  The body of the \<open>try\<close> block after the request has been built: \<open>Inl\<close> when
  something throws (the state is as it was), \<open>Inr\<close> with the parsed data stored.
\<close>

definition try_block :: "platform \<Rightarrow> request \<Rightarrow> session \<Rightarrow> session + session" where
  "try_block P rq s =
     (case generateContent P rq of
        None \<Rightarrow> Inl s
      | Some text \<Rightarrow>
          (case JSON_parse P (jsonString text) of
             None \<Rightarrow> Inl s
           | Some parsedData \<Rightarrow> Inr (s\<lparr>extractedData := parsedData\<rparr>)))"

text \<open>
  The handler up to its first \<open>await\<close>: the early return without an image (no request),
  or the three resets and the request that is about to be sent.
\<close>

definition verify_dispatch :: "variant \<Rightarrow> session \<Rightarrow> session \<times> request option" where
  "verify_dispatch v s =
     (case image_st s of
        None \<Rightarrow> (s\<lparr>error := Some no_image_message\<rparr>, None)
      | Some img \<Rightarrow>
          (s\<lparr>loading := True, error := None, extractedData := JNull\<rparr>,
           Some \<lparr>prompt = v, imagePart = fileToGenerativePart img\<rparr>))"

text \<open>
  The rest of the handler, once the request is out: \<open>try\<close>, \<open>catch\<close>, \<open>finally\<close>.
\<close>

definition verify_complete :: "platform \<Rightarrow> request \<Rightarrow> session \<Rightarrow> session" where
  "verify_complete P rq s =
     (let s' = (case try_block P rq s of
                  Inl s1 \<Rightarrow> s1\<lparr>error := Some processing_error_message\<rparr>
                | Inr s1 \<Rightarrow> s1)
      in s'\<lparr>loading := False\<rparr>)"

text \<open>
  One run of \<open>handleVerifyClick\<close>: the state at the end and the requests that were
  sent to the model.
\<close>

definition handleVerifyClick :: "platform \<Rightarrow> variant \<Rightarrow> session \<Rightarrow> session \<times> request list" where
  "handleVerifyClick P v s =
     (case verify_dispatch v s of
        (s', None) \<Rightarrow> (s', [])
      | (s', Some rq) \<Rightarrow> (verify_complete P rq s', [rq]))"

text \<open>
  The button that calls the handler: \<open>disabled={!image || loading}\<close>. A disabled button
  receives no click.
\<close>

definition verify_disabled :: "session \<Rightarrow> bool" where
  "verify_disabled s = (image_st s = None \<or> loading s)"

definition click_verify :: "platform \<Rightarrow> variant \<Rightarrow> session \<Rightarrow> session \<times> request list" where
  "click_verify P v s = (if verify_disabled s then (s, []) else handleVerifyClick P v s)"

section \<open>The result panel\<close>

text \<open>
  The rows of the panel of each component: label, property read, fallback text.
\<close>

fun panel_rows :: "variant \<Rightarrow> (jsstring \<times> jsstring \<times> jsstring) list" where
  "panel_rows Detail =
     [(js ''Nombre:'', js ''nombre'', js ''No encontrado''),
      (js ''Apellido:'', js ''apellido'', js ''No encontrado''),
      (js ''Nacionalidad:'', js ''nacionalidad'', js ''No encontrada''),
      (js ''Fecha de Nacimiento:'', js ''fechaNacimiento'', js ''No encontrada'')]"
| "panel_rows Summary =
     [(js ''Nacionalidad:'', js ''nacionalidad'', js ''No encontrada''),
      (js ''Edad:'', js ''edad'', js ''No encontrada'')]"

text \<open>
  \<open>{extractedData.key || 'fallback'}\<close>: the value handed to React for display.
\<close>

definition shown :: "jsval \<Rightarrow> jsstring \<Rightarrow> jsstring \<Rightarrow> jsval option" where
  "shown d key fallback = map_option (\<lambda>v. js_or v (JStr fallback)) (get_prop d key)"

text \<open>
  \<open>{extractedData && (...)}\<close>: the panel when the data is truthy, the data itself
  otherwise.
\<close>

datatype node = Value jsval | Panel "(jsstring \<times> jsval option) list"

definition result_node :: "variant \<Rightarrow> jsval \<Rightarrow> node" where
  "result_node v d =
     (if truthy d
      then Panel (map (\<lambda>(label, key, fallback). (label, shown d key fallback)) (panel_rows v))
      else Value d)"

section \<open>Sessions and platforms for closed examples\<close>

text \<open>
  A platform whose model answers every request with one fixed completion (or fails, for
  \<open>None\<close>) and whose \<open>JSON.parse\<close> is given on the texts of a table, every other text
  being a SyntaxError. The tables used below list what \<open>JSON.parse\<close> returns on
  their texts.
\<close>

definition table_platform :: "jsstring option \<Rightarrow> (jsstring \<times> jsval) list \<Rightarrow> platform" where
  "table_platform completion tbl =
     \<lparr>generateContent = (\<lambda>rq. completion), JSON_parse = map_of tbl\<rparr>"

definition example_file :: jsfile where
  "example_file =
     \<lparr>name = js ''dni.png'', type = js ''image/png'', bytes = [0x4D, 0x61, 0x6E]\<rparr>"

definition idle_session :: session where
  "idle_session =
     \<lparr>image_st = Some example_file, extractedData = JNull, loading = False,
      error = None, useWebcam = False\<rparr>"

definition succeeded_session :: session where
  "succeeded_session =
     \<lparr>image_st = Some example_file,
      extractedData = JObj [(js ''nombre'', JStr (js ''Juan''))],
      loading = False, error = None, useWebcam = True\<rparr>"

definition failed_session :: session where
  "failed_session =
     \<lparr>image_st = Some example_file, extractedData = JNull, loading = False,
      error = Some processing_error_message, useWebcam = True\<rparr>"

definition dispatched_session :: session where
  "dispatched_session =
     \<lparr>image_st = Some example_file, extractedData = JNull, loading = True,
      error = None, useWebcam = False\<rparr>"

text \<open>
  Completions with missing fields, and the objects \<open>JSON.parse\<close> returns for them.
\<close>

definition null_and_zero_text :: jsstring where
  \<open>null_and_zero_text = js ''{"nacionalidad":null,"edad":0}''\<close>

definition null_and_zero_object :: "(jsstring \<times> jsval) list" where
  "null_and_zero_object = [(js ''nacionalidad'', JNull), (js ''edad'', JNum 0)]"

definition partial_detail_text :: jsstring where
  \<open>partial_detail_text = js ''{"nombre":"Juan","apellido":null,"fechaNacimiento":""}''\<close>

definition partial_detail_object :: "(jsstring \<times> jsval) list" where
  "partial_detail_object =
     [(js ''nombre'', JStr (js ''Juan'')), (js ''apellido'', JNull),
      (js ''fechaNacimiento'', JStr [])]"

definition age_only_text :: jsstring where
  \<open>age_only_text = js ''{"edad":30}''\<close>

definition age_only_object :: "(jsstring \<times> jsval) list" where
  "age_only_object = [(js ''edad'', JNum 30)]"

section \<open>The handlers on the session state\<close>

lemma processing_error_message_nonempty: "processing_error_message \<noteq> []"
  by (simp add: processing_error_message_def js_def)

lemma no_image_message_nonempty: "no_image_message \<noteq> []"
  by (simp add: no_image_message_def js_def)

lemma handleVerifyClick_no_image:
  "image_st s = None \<Longrightarrow>
   handleVerifyClick P v s = (s\<lparr>error := Some no_image_message\<rparr>, [])"
  by (simp add: handleVerifyClick_def verify_dispatch_def)

lemma handleVerifyClick_image:
  "image_st s = Some img \<Longrightarrow>
   handleVerifyClick P v s =
     (verify_complete P \<lparr>prompt = v, imagePart = fileToGenerativePart img\<rparr>
        (s\<lparr>loading := True, error := None, extractedData := JNull\<rparr>),
      [\<lparr>prompt = v, imagePart = fileToGenerativePart img\<rparr>])"
  by (simp add: handleVerifyClick_def verify_dispatch_def)

text \<open>
  A file chosen in the picker replaces the image and clears result and error.
\<close>

lemma handleImageChange_clears:
  "handleImageChange (Some f) s = s' \<Longrightarrow>
   image_st s' = Some f \<and> extractedData s' = JNull \<and> error s' = None"
  by (auto simp: handleImageChange_def)

text \<open>
  A capture writes \<open>image\<close> and \<open>useWebcam\<close> only: result and error stay as they were.
\<close>

lemma captureImage_frame:
  "extractedData (captureImage imageSrc blob0 s) = extractedData s
   \<and> error (captureImage imageSrc blob0 s) = error s"
  by (simp add: captureImage_def split: option.splits)

text \<open>
  C1 (a new image selection or a camera capture clears any prior result and error,
  leaving the new image with no result and no error). The file picker does so; the
  capture does not. After a successful attempt the user switches to the camera and
  captures a frame: the new image is stored and the result of the previous image is still
  there. After a failed attempt, the capture leaves the error message in place. The same
  two sessions are cleared by \<open>handleImageChange\<close>.
\<close>

theorem captureImage_keeps_stale_result:
  "image_st (captureImage (Some (js ''data:image/jpeg;base64,/9g='')) (Some [0xFF, 0xD8])
               succeeded_session)
     = Some \<lparr>name = js ''webcam-capture.jpg'', type = js ''image/jpeg'',
             bytes = [0xFF, 0xD8]\<rparr>
   \<and> extractedData (captureImage (Some (js ''data:image/jpeg;base64,/9g=''))
                      (Some [0xFF, 0xD8]) succeeded_session)
     = JObj [(js ''nombre'', JStr (js ''Juan''))]
   \<and> extractedData (captureImage (Some (js ''data:image/jpeg;base64,/9g=''))
                      (Some [0xFF, 0xD8]) succeeded_session)
     \<noteq> JNull
   \<and> error (captureImage (Some (js ''data:image/jpeg;base64,/9g='')) (Some [0xFF, 0xD8])
              failed_session)
     = Some processing_error_message
   \<and> extractedData (handleImageChange (Some example_file) succeeded_session) = JNull
   \<and> error (handleImageChange (Some example_file) failed_session) = None"
  by (simp add: captureImage_def handleImageChange_def succeeded_session_def
      failed_session_def js_def)

text \<open>
  C2, as stated (a call of \<open>handleVerifyClick\<close> while \<open>loading\<close> is true is rejected
  before dispatch), fails: the handler tests the image only, and called in a session
  that is loading it sends a request.
\<close>

theorem handleVerifyClick_ignores_loading:
  "loading dispatched_session
   \<and> snd (handleVerifyClick (table_platform None []) Detail dispatched_session)
       = [\<lparr>prompt = Detail, imagePart = fileToGenerativePart example_file\<rparr>]"
  by (simp add: handleVerifyClick_image dispatched_session_def)

text \<open>
  C2, amended: while \<open>loading\<close> is true the button that calls the handler is disabled,
  so a click on it changes nothing and sends no request. The gate is the button, not
  the handler.
\<close>

theorem click_while_loading:
  assumes "loading s"
  shows "verify_disabled s \<and> click_verify P v s = (s, [])"
  using assms by (simp add: click_verify_def verify_disabled_def)

theorem click_while_loading_witness:
  "loading dispatched_session
   \<and> click_verify (table_platform None []) Detail dispatched_session
       = (dispatched_session, [])"
proof -
  have l: "loading dispatched_session"
    by (simp add: dispatched_session_def)
  from click_while_loading [OF l] l show ?thesis by simp
qed

text \<open>
  C7: with no image, \<open>handleVerifyClick\<close> sets the message asking for an image, sends
  no request and leaves the stored result (and the loading flag) as it was.
\<close>

theorem verify_without_image:
  assumes "image_st s = None"
  shows "snd (handleVerifyClick P v s) = []
    \<and> error (fst (handleVerifyClick P v s)) = Some no_image_message
    \<and> extractedData (fst (handleVerifyClick P v s)) = extractedData s
    \<and> loading (fst (handleVerifyClick P v s)) = loading s"
  using assms by (simp add: handleVerifyClick_no_image)

theorem verify_without_image_witness:
  "image_st (succeeded_session\<lparr>image_st := None\<rparr>) = None
   \<and> snd (handleVerifyClick (table_platform None []) Detail
             (succeeded_session\<lparr>image_st := None\<rparr>)) = []
   \<and> error (fst (handleVerifyClick (table_platform None []) Detail
                    (succeeded_session\<lparr>image_st := None\<rparr>)))
       = Some no_image_message
   \<and> extractedData (fst (handleVerifyClick (table_platform None []) Detail
                            (succeeded_session\<lparr>image_st := None\<rparr>)))
       = JObj [(js ''nombre'', JStr (js ''Juan''))]"
proof -
  have h: "image_st (succeeded_session\<lparr>image_st := None\<rparr>) = None"
    by simp
  from verify_without_image [OF h, of "table_platform None []" Detail] h
  show ?thesis by (simp add: succeeded_session_def)
qed

text \<open>
  C4: when the completion, after the fences are stripped, is not valid JSON, the attempt
  ends with the generic error message (which is not empty), \<open>extractedData\<close> is
  \<open>null\<close> and the loading flag is cleared, whatever the session held before.
\<close>

theorem parse_failure:
  assumes "image_st s = Some img"
    and "generateContent P \<lparr>prompt = v, imagePart = fileToGenerativePart img\<rparr> = Some text"
    and "JSON_parse P (jsonString text) = None"
  shows "error (fst (handleVerifyClick P v s)) = Some processing_error_message
    \<and> processing_error_message \<noteq> []
    \<and> extractedData (fst (handleVerifyClick P v s)) = JNull
    \<and> loading (fst (handleVerifyClick P v s)) = False"
  using assms processing_error_message_nonempty
  by (simp add: handleVerifyClick_image verify_complete_def try_block_def)

theorem parse_failure_witness:
  "image_st succeeded_session = Some example_file
   \<and> generateContent (table_platform (Some (js ''Lo siento'')) [])
        \<lparr>prompt = Detail, imagePart = fileToGenerativePart example_file\<rparr>
       = Some (js ''Lo siento'')
   \<and> JSON_parse (table_platform (Some (js ''Lo siento'')) []) (jsonString (js ''Lo siento''))
       = None
   \<and> error (fst (handleVerifyClick (table_platform (Some (js ''Lo siento'')) []) Detail
                    succeeded_session))
       = Some processing_error_message
   \<and> extractedData (fst (handleVerifyClick (table_platform (Some (js ''Lo siento'')) [])
                            Detail succeeded_session))
       = JNull"
proof -
  have a: "image_st succeeded_session = Some example_file"
    by (simp add: succeeded_session_def)
  have b: "generateContent (table_platform (Some (js ''Lo siento'')) [])
        \<lparr>prompt = Detail, imagePart = fileToGenerativePart example_file\<rparr>
       = Some (js ''Lo siento'')"
    by (simp add: table_platform_def)
  have c: "JSON_parse (table_platform (Some (js ''Lo siento'')) [])
        (jsonString (js ''Lo siento'')) = None"
    by (simp add: table_platform_def)
  from parse_failure [OF a b c] a b c show ?thesis by simp
qed

text \<open>
  C3, as stated (a completion that is valid JSON but not an object is reported as an
  extraction error), fails: the handler stores whatever \<open>JSON.parse\<close> returns. The
  completion \<open>[]\<close> parses to the empty array, which becomes \<open>extractedData\<close>, and
  no error is set.
\<close>

theorem non_object_accepted:
  "JSON_parse (table_platform (Some (js ''[]'')) [(js ''[]'', JArr [])]) (jsonString (js ''[]''))
     = Some (JArr [])
   \<and> error (fst (handleVerifyClick (table_platform (Some (js ''[]'')) [(js ''[]'', JArr [])])
                    Detail idle_session)) = None
   \<and> extractedData (fst (handleVerifyClick (table_platform (Some (js ''[]'')) [(js ''[]'', JArr [])])
                    Detail idle_session)) = JArr []"
  by (simp add: handleVerifyClick_image idle_session_def verify_complete_def try_block_def
      table_platform_def jsonString_def trim_def is_js_space_def js_def)

text \<open>
  C3, amended: a completion that parses as JSON after the fences are stripped is accepted
  whatever the parsed value is, object or not: it is stored as \<open>extractedData\<close>, no
  error is set and the loading flag is cleared. Only a completion that fails to parse is
  reported as an extraction error.
\<close>

theorem parsed_value_stored:
  assumes "image_st s = Some img"
    and "generateContent P \<lparr>prompt = v, imagePart = fileToGenerativePart img\<rparr> = Some text"
    and "JSON_parse P (jsonString text) = Some d"
  shows "error (fst (handleVerifyClick P v s)) = None
    \<and> extractedData (fst (handleVerifyClick P v s)) = d
    \<and> loading (fst (handleVerifyClick P v s)) = False"
  using assms
  by (simp add: handleVerifyClick_image verify_complete_def try_block_def)

theorem parsed_value_stored_witness:
  \<open>image_st failed_session = Some example_file
   \<and> JSON_parse (table_platform (Some (js ''"Juan"'')) [(js ''"Juan"'', JStr (js ''Juan''))])
         (jsonString (js ''"Juan"'')) = Some (JStr (js ''Juan''))
   \<and> error (fst (handleVerifyClick
                    (table_platform (Some (js ''"Juan"'')) [(js ''"Juan"'', JStr (js ''Juan''))])
                    Detail failed_session)) = None
   \<and> extractedData (fst (handleVerifyClick
                    (table_platform (Some (js ''"Juan"'')) [(js ''"Juan"'', JStr (js ''Juan''))])
                    Detail failed_session)) = JStr (js ''Juan'')\<close>
proof -
  let ?P = \<open>table_platform (Some (js ''"Juan"'')) [(js ''"Juan"'', JStr (js ''Juan''))]\<close>
  have a: "image_st failed_session = Some example_file"
    by (simp add: failed_session_def)
  have b: \<open>generateContent ?P \<lparr>prompt = Detail, imagePart = fileToGenerativePart example_file\<rparr>
       = Some (js ''"Juan"'')\<close>
    by (simp add: table_platform_def)
  have c: \<open>JSON_parse ?P (jsonString (js ''"Juan"'')) = Some (JStr (js ''Juan''))\<close>
    by (simp add: table_platform_def jsonString_def trim_def is_js_space_def js_def)
  from parsed_value_stored [OF a b c] a c show ?thesis by simp
qed

text \<open>
  C9: on both error paths of an attempt (the model call fails, or its completion does not
  parse) the loading flag is cleared and the image is the one selected before, so the
  verify button is enabled again.
\<close>

theorem error_paths_allow_retry:
  assumes "image_st s = Some img"
    and "generateContent P \<lparr>prompt = v, imagePart = fileToGenerativePart img\<rparr> = None
         \<or> (\<exists>text. generateContent P \<lparr>prompt = v, imagePart = fileToGenerativePart img\<rparr>
                      = Some text
                    \<and> JSON_parse P (jsonString text) = None)"
  shows "error (fst (handleVerifyClick P v s)) = Some processing_error_message
    \<and> loading (fst (handleVerifyClick P v s)) = False
    \<and> image_st (fst (handleVerifyClick P v s)) = image_st s
    \<and> \<not> verify_disabled (fst (handleVerifyClick P v s))"
  using assms
  by (auto simp: handleVerifyClick_image verify_complete_def try_block_def verify_disabled_def)

theorem error_paths_allow_retry_witness:
  "image_st idle_session = Some example_file
   \<and> generateContent (table_platform None [])
        \<lparr>prompt = Summary, imagePart = fileToGenerativePart example_file\<rparr> = None
   \<and> loading (fst (handleVerifyClick (table_platform None []) Summary idle_session)) = False
   \<and> image_st (fst (handleVerifyClick (table_platform None []) Summary idle_session))
       = Some example_file
   \<and> error (fst (handleVerifyClick (table_platform None []) Summary idle_session))
       = Some processing_error_message"
proof -
  have a: "image_st idle_session = Some example_file"
    by (simp add: idle_session_def)
  have b: "generateContent (table_platform None [])
        \<lparr>prompt = Summary, imagePart = fileToGenerativePart example_file\<rparr> = None"
    by (simp add: table_platform_def)
  from error_paths_allow_retry [OF a disjI1 [OF b]] a b show ?thesis by simp
qed

section \<open>What the result panel shows\<close>

lemma shown_object:
  "shown (JObj kvs) key fallback =
     Some (case map_of kvs key of
             None \<Rightarrow> JStr fallback
           | Some x \<Rightarrow> if truthy x then x else JStr fallback)"
  by (simp add: shown_def js_or_def split: option.splits)

lemma result_node_object:
  "result_node v (JObj kvs) =
     Panel (map (\<lambda>(label, key, fallback). (label, shown (JObj kvs) key fallback)) (panel_rows v))"
  by (simp add: result_node_def)

text \<open>
  C10: a field of the parsed object that is present but falsy (the empty string, the
  number 0) is shown as the fallback text of its row, and the panel is the same as the
  one for the object in which the field is \<open>null\<close> or absent.
\<close>

theorem falsy_field_shows_fallback:
  assumes "(label, key, fallback) \<in> set (panel_rows v)"
    and "map_of kvs key = Some (JStr []) \<or> map_of kvs key = Some (JNum 0)"
  shows "shown (JObj kvs) key fallback = Some (JStr fallback)
    \<and> shown (JObj ((key, JNull) # kvs)) key fallback = Some (JStr fallback)
    \<and> shown (JObj (AList.delete key kvs)) key fallback = Some (JStr fallback)
    \<and> (\<exists>rows. result_node v (JObj kvs) = Panel rows \<and> (label, Some (JStr fallback)) \<in> set rows)
    \<and> result_node v (JObj kvs) = result_node v (JObj ((key, JNull) # kvs))
    \<and> result_node v (JObj kvs) = result_node v (JObj (AList.delete key kvs))"
proof -
  have a: "shown (JObj kvs) key fallback = Some (JStr fallback)"
    using assms(2) by (auto simp: shown_object)
  have b: "shown (JObj ((key, JNull) # kvs)) key fallback = Some (JStr fallback)"
    by (simp add: shown_object)
  have c: "shown (JObj (AList.delete key kvs)) key fallback = Some (JStr fallback)"
    by (simp add: shown_object delete_conv)
  have same1: "shown (JObj ((key, JNull) # kvs)) k fb = shown (JObj kvs) k fb" for k fb
    using assms(2) by (cases "k = key") (auto simp: shown_object)
  have same2: "shown (JObj (AList.delete key kvs)) k fb = shown (JObj kvs) k fb" for k fb
    using assms(2) by (cases "k = key") (auto simp: shown_object delete_conv)
  have d: "\<exists>rows. result_node v (JObj kvs) = Panel rows \<and> (label, Some (JStr fallback)) \<in> set rows"
    using assms(1) a by (force simp: result_node_object)
  have e: "result_node v (JObj kvs) = result_node v (JObj ((key, JNull) # kvs))"
    by (simp only: result_node_object same1)
  have f: "result_node v (JObj kvs) = result_node v (JObj (AList.delete key kvs))"
    by (simp only: result_node_object same2)
  from a b c d e f show ?thesis by blast
qed

theorem falsy_field_shows_fallback_witness:
  "(js ''Edad:'', js ''edad'', js ''No encontrada'') \<in> set (panel_rows Summary)
   \<and> map_of [(js ''nacionalidad'', JStr (js ''AR'')), (js ''edad'', JNum 0)] (js ''edad'')
       = Some (JNum 0)
   \<and> shown (JObj [(js ''nacionalidad'', JStr (js ''AR'')), (js ''edad'', JNum 0)])
        (js ''edad'') (js ''No encontrada'') = Some (JStr (js ''No encontrada''))
   \<and> result_node Summary (JObj [(js ''nacionalidad'', JStr (js ''AR'')), (js ''edad'', JNum 0)])
       = result_node Summary
           (JObj [(js ''edad'', JNull), (js ''nacionalidad'', JStr (js ''AR'')),
                  (js ''edad'', JNum 0)])"
proof -
  have a: "(js ''Edad:'', js ''edad'', js ''No encontrada'') \<in> set (panel_rows Summary)"
    by simp
  have b: "map_of [(js ''nacionalidad'', JStr (js ''AR'')), (js ''edad'', JNum 0)] (js ''edad'')
       = Some (JNum 0)"
    by (simp add: js_def)
  from falsy_field_shows_fallback [OF a disjI2 [OF b]] a b show ?thesis by simp
qed

text \<open>
  C5, as stated (when one or more expected fields are null or absent, every present
  field is displayed exactly as received), fails: in the nationality and age component
  the completion \<open>{"nacionalidad":null,"edad":0}\<close> has the field \<open>nacionalidad\<close>
  null and the field \<open>edad\<close> present with the value 0. The attempt succeeds, and the
  row of \<open>edad\<close> shows the fallback text, not the 0 that was received.
\<close>

theorem zero_age_shown_as_missing:
  "JSON_parse (table_platform (Some null_and_zero_text)
                 [(null_and_zero_text, JObj null_and_zero_object)])
      (jsonString null_and_zero_text)
     = Some (JObj null_and_zero_object)
   \<and> map_of null_and_zero_object (js ''nacionalidad'') = Some JNull
   \<and> map_of null_and_zero_object (js ''edad'') = Some (JNum 0)
   \<and> error (fst (handleVerifyClick
          (table_platform (Some null_and_zero_text)
             [(null_and_zero_text, JObj null_and_zero_object)])
          Summary idle_session)) = None
   \<and> result_node Summary
       (extractedData (fst (handleVerifyClick
          (table_platform (Some null_and_zero_text)
             [(null_and_zero_text, JObj null_and_zero_object)])
          Summary idle_session)))
     = Panel [(js ''Nacionalidad:'', Some (JStr (js ''No encontrada''))),
              (js ''Edad:'', Some (JStr (js ''No encontrada'')))]
   \<and> JStr (js ''No encontrada'') \<noteq> JNum 0"
  by (simp add: handleVerifyClick_image idle_session_def verify_complete_def try_block_def
      table_platform_def jsonString_def trim_def is_js_space_def js_def
      null_and_zero_text_def null_and_zero_object_def
      result_node_def shown_def js_or_def)

text \<open>
  C5, amended: when the completion parses to an object, the attempt succeeds
  (\<open>extractedData\<close> is the object, no error, loading cleared) and the panel has a row
  for every expected field. A field that is \<open>null\<close> or absent shows the fallback text
  of its row. A present field whose value is a non-empty string or a number other than 0
  is handed to the display exactly as received. A present field whose value is the empty
  string or the number 0 shows the fallback text of its row.
\<close>

theorem partial_fields_succeed:
  assumes "image_st s = Some img"
    and "generateContent P \<lparr>prompt = v, imagePart = fileToGenerativePart img\<rparr> = Some text"
    and "JSON_parse P (jsonString text) = Some (JObj kvs)"
    and "(label, key, fallback) \<in> set (panel_rows v)"
  shows "extractedData (fst (handleVerifyClick P v s)) = JObj kvs
    \<and> error (fst (handleVerifyClick P v s)) = None
    \<and> loading (fst (handleVerifyClick P v s)) = False
    \<and> (\<exists>rows. result_node v (extractedData (fst (handleVerifyClick P v s))) = Panel rows
          \<and> (label, shown (JObj kvs) key fallback) \<in> set rows)
    \<and> (map_of kvs key = None \<or> map_of kvs key = Some JNull
          \<longrightarrow> shown (JObj kvs) key fallback = Some (JStr fallback))
    \<and> (\<forall>x. map_of kvs key = Some (JStr x) \<and> x \<noteq> []
          \<longrightarrow> shown (JObj kvs) key fallback = Some (JStr x))
    \<and> (\<forall>r. map_of kvs key = Some (JNum r) \<and> r \<noteq> 0
          \<longrightarrow> shown (JObj kvs) key fallback = Some (JNum r))
    \<and> (map_of kvs key = Some (JStr []) \<or> map_of kvs key = Some (JNum 0)
          \<longrightarrow> shown (JObj kvs) key fallback = Some (JStr fallback))"
proof -
  have st: "extractedData (fst (handleVerifyClick P v s)) = JObj kvs
    \<and> error (fst (handleVerifyClick P v s)) = None
    \<and> loading (fst (handleVerifyClick P v s)) = False"
    using assms(1-3) by (simp add: handleVerifyClick_image verify_complete_def try_block_def)
  have row: "\<exists>rows. result_node v (JObj kvs) = Panel rows
          \<and> (label, shown (JObj kvs) key fallback) \<in> set rows"
    using assms(4) by (force simp: result_node_object)
  have absent: "map_of kvs key = None \<or> map_of kvs key = Some JNull
          \<longrightarrow> shown (JObj kvs) key fallback = Some (JStr fallback)"
    by (auto simp: shown_object)
  have text_field: "\<forall>x. map_of kvs key = Some (JStr x) \<and> x \<noteq> []
          \<longrightarrow> shown (JObj kvs) key fallback = Some (JStr x)"
    by (auto simp: shown_object)
  have number_field: "\<forall>r. map_of kvs key = Some (JNum r) \<and> r \<noteq> 0
          \<longrightarrow> shown (JObj kvs) key fallback = Some (JNum r)"
    by (auto simp: shown_object)
  have falsy: "map_of kvs key = Some (JStr []) \<or> map_of kvs key = Some (JNum 0)
          \<longrightarrow> shown (JObj kvs) key fallback = Some (JStr fallback)"
    by (auto simp: shown_object)
  from st row absent text_field number_field falsy show ?thesis by simp
qed

theorem partial_fields_succeed_witness:
  "error (fst (handleVerifyClick
          (table_platform (Some partial_detail_text)
             [(partial_detail_text, JObj partial_detail_object)])
          Detail idle_session)) = None
   \<and> extractedData (fst (handleVerifyClick
          (table_platform (Some partial_detail_text)
             [(partial_detail_text, JObj partial_detail_object)])
          Detail idle_session)) = JObj partial_detail_object
   \<and> shown (JObj partial_detail_object) (js ''nombre'') (js ''No encontrado'')
       = Some (JStr (js ''Juan''))
   \<and> shown (JObj partial_detail_object) (js ''apellido'') (js ''No encontrado'')
       = Some (JStr (js ''No encontrado''))
   \<and> shown (JObj partial_detail_object) (js ''nacionalidad'') (js ''No encontrada'')
       = Some (JStr (js ''No encontrada''))
   \<and> shown (JObj partial_detail_object) (js ''fechaNacimiento'') (js ''No encontrada'')
       = Some (JStr (js ''No encontrada''))
   \<and> extractedData (fst (handleVerifyClick
          (table_platform (Some age_only_text) [(age_only_text, JObj age_only_object)])
          Summary idle_session)) = JObj age_only_object
   \<and> shown (JObj age_only_object) (js ''nacionalidad'') (js ''No encontrada'')
       = Some (JStr (js ''No encontrada''))
   \<and> shown (JObj age_only_object) (js ''edad'') (js ''No encontrada'') = Some (JNum 30)"
proof -
  let ?P = "table_platform (Some partial_detail_text)
              [(partial_detail_text, JObj partial_detail_object)]"
  let ?Q = "table_platform (Some age_only_text) [(age_only_text, JObj age_only_object)]"
  have a: "image_st idle_session = Some example_file"
    by (simp add: idle_session_def)
  have b: "generateContent ?P \<lparr>prompt = Detail, imagePart = fileToGenerativePart example_file\<rparr>
       = Some partial_detail_text"
    by (simp add: table_platform_def)
  have c: "JSON_parse ?P (jsonString partial_detail_text) = Some (JObj partial_detail_object)"
    by (simp add: table_platform_def jsonString_def trim_def is_js_space_def js_def
        partial_detail_text_def)
  have b': "generateContent ?Q \<lparr>prompt = Summary, imagePart = fileToGenerativePart example_file\<rparr>
       = Some age_only_text"
    by (simp add: table_platform_def)
  have c': "JSON_parse ?Q (jsonString age_only_text) = Some (JObj age_only_object)"
    by (simp add: table_platform_def jsonString_def trim_def is_js_space_def js_def
        age_only_text_def)
  have r1: "(js ''Nombre:'', js ''nombre'', js ''No encontrado'') \<in> set (panel_rows Detail)"
    and r2: "(js ''Apellido:'', js ''apellido'', js ''No encontrado'') \<in> set (panel_rows Detail)"
    and r3: "(js ''Nacionalidad:'', js ''nacionalidad'', js ''No encontrada'')
               \<in> set (panel_rows Detail)"
    and r4: "(js ''Fecha de Nacimiento:'', js ''fechaNacimiento'', js ''No encontrada'')
               \<in> set (panel_rows Detail)"
    and r5: "(js ''Nacionalidad:'', js ''nacionalidad'', js ''No encontrada'')
               \<in> set (panel_rows Summary)"
    and r6: "(js ''Edad:'', js ''edad'', js ''No encontrada'') \<in> set (panel_rows Summary)"
    by simp_all
  have m1: "map_of partial_detail_object (js ''nombre'') = Some (JStr (js ''Juan''))
            \<and> js ''Juan'' \<noteq> []"
    and m2: "map_of partial_detail_object (js ''apellido'') = Some JNull"
    and m3: "map_of partial_detail_object (js ''nacionalidad'') = None"
    and m4: "map_of partial_detail_object (js ''fechaNacimiento'') = Some (JStr [])"
    and m5: "map_of age_only_object (js ''nacionalidad'') = None"
    and m6: "map_of age_only_object (js ''edad'') = Some (JNum 30) \<and> (30::rat) \<noteq> 0"
    by (simp_all add: partial_detail_object_def age_only_object_def js_def)
  from partial_fields_succeed [OF a b c r1] partial_fields_succeed [OF a b c r2]
    partial_fields_succeed [OF a b c r3] partial_fields_succeed [OF a b c r4]
    partial_fields_succeed [OF a b' c' r5] partial_fields_succeed [OF a b' c' r6]
    m1 m2 m3 m4 m5 m6
  show ?thesis by simp
qed

section \<open>Stripping the code fences\<close>

lemma remove_all_prefix:
  "pat \<noteq> [] \<Longrightarrow> remove_all pat (pat @ rest) = remove_all pat rest"
  by (cases pat) simp_all

lemma remove_all_skip:
  "pat \<noteq> [] \<Longrightarrow> \<forall>c\<in>set w. c \<noteq> hd pat \<Longrightarrow> remove_all pat (w @ s) = w @ remove_all pat s"
proof (induction w)
  case Nil
  then show ?case by simp
next
  case (Cons c w)
  then have "take (length pat) (c # w @ s) \<noteq> pat"
    by (cases pat) auto
  with Cons show ?case by simp
qed

lemma remove_all_no_last:
  assumes "pat \<noteq> []" and "last pat \<notin> set s"
  shows "remove_all pat s = s"
  using assms(2)
proof (induction s)
  case Nil
  then show ?case by simp
next
  case (Cons c s)
  have "take (length pat) (c # s) \<noteq> pat"
  proof
    assume "take (length pat) (c # s) = pat"
    then have "set pat \<subseteq> set (c # s)"
      by (metis set_take_subset)
    moreover have "last pat \<in> set pat"
      using assms(1) by simp
    ultimately show False using Cons.prems by blast
  qed
  with Cons show ?case by simp
qed

lemma match_append:
  assumes "take (length pat) t = pat"
  shows "take (length pat) (t @ s) = pat"
    and "drop (length pat) (t @ s) = drop (length pat) t @ s"
proof -
  have "length (take (length pat) t) = length pat"
    using assms by simp
  then have len: "length pat \<le> length t"
    by simp
  show "take (length pat) (t @ s) = pat"
    using assms len by simp
  show "drop (length pat) (t @ s) = drop (length pat) t @ s"
    using len by simp
qed

lemma no_match_append:
  assumes "pat \<noteq> []" and "last pat \<notin> set s" and "take (length pat) t \<noteq> pat"
  shows "take (length pat) (t @ s) \<noteq> pat"
proof
  assume eq: "take (length pat) (t @ s) = pat"
  show False
  proof (cases "length pat \<le> length t")
    case True
    with eq assms(3) show False by simp
  next
    case False
    with eq have split: "pat = t @ take (length pat - length t) s"
      by simp
    have nonempty: "take (length pat - length t) s \<noteq> []"
    proof
      assume "take (length pat - length t) s = []"
      with split have "pat = t" by simp
      with False show False by simp
    qed
    from split nonempty have "last pat = last (take (length pat - length t) s)"
      by (metis last_appendR)
    moreover have "last (take (length pat - length t) s) \<in> set s"
      using nonempty by (meson in_set_takeD last_in_set)
    ultimately show False using assms(2) by simp
  qed
qed

lemma remove_all_append_no_last:
  "pat \<noteq> [] \<Longrightarrow> last pat \<notin> set s \<Longrightarrow> remove_all pat (t @ s) = remove_all pat t @ s"
proof (induction pat t rule: remove_all.induct)
  case (1 pat)
  then show ?case by (simp add: remove_all_no_last)
next
  case (2 pat c cs)
  show ?case
  proof (cases "take (length pat) (c # cs) = pat")
    case True
    from match_append [OF True, of s]
    have m: "take (length pat) (c # cs @ s) = pat"
      and d: "drop (length pat) (c # cs @ s) = drop (length pat) (c # cs) @ s"
      by simp_all
    from d 2(3) have d': "drop (length pat - 1) (cs @ s) = drop (length pat - 1) cs @ s"
      by (cases pat) simp_all
    from 2 True m d' show ?thesis by simp
  next
    case False
    from no_match_append [OF 2(3) 2(4) False]
    have "take (length pat) (c # cs @ s) \<noteq> pat" by simp
    with 2 False show ?thesis by simp
  qed
qed

lemma remove_triple_short:
  "b \<notin> set w \<Longrightarrow> remove_all [b, b, b] w = w"
  by (rule remove_all_no_last) simp_all

lemma remove_triple_fence:
  "b \<notin> set w \<Longrightarrow> remove_all [b, b, b] (y @ [b, b, b] @ w) = remove_all [b, b, b] y @ w"
proof (induction y rule: length_induct)
  case (1 y)
  note IH = 1(1) and w = 1(2)
  have w': "remove_all [b, b, b] w = w"
    using w by (rule remove_triple_short)
  have w1: "remove_all [b, b, b] (b # w) = b # w"
    using w w' by (cases w) auto
  have w2: "remove_all [b, b, b] (b # b # w) = b # b # w"
    using w w1 by (cases w) auto
  show ?case
  proof (cases y)
    case Nil
    then show ?thesis using w' by simp
  next
    case (Cons c1 y1)
    show ?thesis
    proof (cases "c1 = b")
      case False
      with Cons IH w show ?thesis by simp
    next
      case True
      show ?thesis
      proof (cases y1)
        case Nil
        with Cons True w1 show ?thesis by simp
      next
        case (Cons c2 y2)
        note y1 = Cons
        show ?thesis
        proof (cases "c2 = b")
          case False
          with \<open>y = c1 # y1\<close> y1 True IH w show ?thesis by simp
        next
          case c2: True
          show ?thesis
          proof (cases y2)
            case Nil
            with \<open>y = c1 # y1\<close> y1 True c2 w2 show ?thesis by simp
          next
            case (Cons c3 y3)
            with \<open>y = c1 # y1\<close> y1 True c2 IH w show ?thesis by simp
          qed
        qed
      qed
    qed
  qed
qed

lemma remove_triple_simps:
  "remove_all [b, b, b] (b # b # b # xs) = remove_all [b, b, b] xs"
  "c \<noteq> b \<Longrightarrow> remove_all [b, b, b] (c # xs) = c # remove_all [b, b, b] xs"
  "c \<noteq> b \<Longrightarrow> remove_all [b, b, b] (b # c # xs) = b # c # remove_all [b, b, b] xs"
  "c \<noteq> b \<Longrightarrow> remove_all [b, b, b] (b # b # c # xs) = b # b # c # remove_all [b, b, b] xs"
  "remove_all [b, b, b] [b] = [b]"
  "remove_all [b, b, b] [b, b] = [b, b]"
  by simp_all

lemma remove_triple_split:
  "c \<noteq> b \<Longrightarrow>
   remove_all [b, b, b] (y @ c # z) = remove_all [b, b, b] y @ remove_all [b, b, b] (c # z)"
proof (induction y rule: length_induct)
  case (1 y)
  note IH = 1(1) [rule_format] and c = 1(2)
  show ?case
  proof (cases y)
    case Nil
    then show ?thesis by simp
  next
    case y: (Cons c1 y1)
    show ?thesis
    proof (cases "c1 = b")
      case False
      have "remove_all [b, b, b] (y1 @ c # z)
          = remove_all [b, b, b] y1 @ remove_all [b, b, b] (c # z)"
        using y c by (intro IH) simp_all
      with False y show ?thesis
        by (simp add: remove_triple_simps del: remove_all.simps)
    next
      case c1: True
      show ?thesis
      proof (cases y1)
        case Nil
        with y c1 c show ?thesis
          by (simp add: remove_triple_simps del: remove_all.simps)
      next
        case y1: (Cons c2 y2)
        show ?thesis
        proof (cases "c2 = b")
          case False
          have "remove_all [b, b, b] (y2 @ c # z)
              = remove_all [b, b, b] y2 @ remove_all [b, b, b] (c # z)"
            using y y1 c by (intro IH) simp_all
          with False y y1 c1 show ?thesis
            by (simp add: remove_triple_simps del: remove_all.simps)
        next
          case c2: True
          show ?thesis
          proof (cases y2)
            case Nil
            with y y1 c1 c2 c show ?thesis
              by (simp add: remove_triple_simps del: remove_all.simps)
          next
            case y2: (Cons c3 y3)
            have "remove_all [b, b, b] (y3 @ c # z)
                = remove_all [b, b, b] y3 @ remove_all [b, b, b] (c # z)"
              using y y1 y2 c by (intro IH) simp_all
            with y y1 y2 c1 c2 show ?thesis
              by (cases "c3 = b") (simp_all add: remove_triple_simps del: remove_all.simps)
          qed
        qed
      qed
    qed
  qed
qed

lemma trim_spaces_around:
  assumes "\<forall>c\<in>set w1. is_js_space c" and "\<forall>c\<in>set w2. is_js_space c"
  shows "trim (w1 @ s @ w2) = trim s"
proof -
  have front: "dropWhile is_js_space (w1 @ s @ w2) = dropWhile is_js_space (s @ w2)"
    using assms(1) by (simp add: dropWhile_append2)
  show ?thesis
  proof (cases "\<forall>c\<in>set s. is_js_space c")
    case True
    then have "dropWhile is_js_space (s @ w2) = []" and "dropWhile is_js_space s = []"
      using assms(2) by auto
    with front show ?thesis by (simp only: trim_def rev.simps dropWhile.simps)
  next
    case False
    then have "dropWhile is_js_space (s @ w2) = dropWhile is_js_space s @ w2"
      by (auto simp: dropWhile_append1)
    moreover have "dropWhile is_js_space (rev w2 @ x) = dropWhile is_js_space x" for x
      by (rule dropWhile_append2) (use assms(2) in auto)
    ultimately show ?thesis using front by (simp add: trim_def)
  qed
qed

lemma js_space_not_fence:
  "is_js_space c \<Longrightarrow> c \<noteq> 0x60 \<and> c \<noteq> 0x6E"
  by (auto simp: is_js_space_def)

lemma fence_json: "js ''```json'' = [0x60, 0x60, 0x60, 0x6A, 0x73, 0x6F, 0x6E]"
  by (simp add: js_def)

lemma fence: "js ''```'' = [0x60, 0x60, 0x60]"
  by (simp add: js_def)

text \<open>
  C6: a payload \<open>t\<close> wrapped in code fences (\<open>```json\<close> before and \<open>```\<close> after,
  with any white space around the fences and around the payload) is cleaned to the same
  text as \<open>t\<close> alone, so \<open>JSON.parse\<close> is given the same text and returns the same
  result. This holds for every text \<open>t\<close>, JSON or not.
\<close>

theorem fenced_same_as_unfenced:
  assumes "\<forall>c\<in>set w0. is_js_space c" and "\<forall>c\<in>set w1. is_js_space c"
    and "\<forall>c\<in>set w2. is_js_space c" and "\<forall>c\<in>set w3. is_js_space c"
  shows "jsonString (w0 @ js ''```json'' @ w1 @ t @ w2 @ js ''```'' @ w3) = jsonString t
    \<and> JSON_parse P (jsonString (w0 @ js ''```json'' @ w1 @ t @ w2 @ js ''```'' @ w3))
        = JSON_parse P (jsonString t)"
proof -
  let ?F7 = "js ''```json''" and ?F3 = "js ''```''"
  let ?y = "remove_all ?F7 t"
  have F7: "?F7 \<noteq> []" "hd ?F7 = 0x60" "last ?F7 = 0x6E"
    by (simp_all add: fence_json)
  have nb: "\<forall>c\<in>set w. c \<noteq> 0x60" if "\<forall>c\<in>set w. is_js_space c" for w
    using that js_space_not_fence by blast
  have nn: "0x6E \<notin> set w" if "\<forall>c\<in>set w. is_js_space c" for w
    using that js_space_not_fence by blast
  have tail: "last ?F7 \<notin> set (w2 @ ?F3 @ w3)"
    using nn [OF assms(3)] nn [OF assms(4)] by (simp add: F7 fence)
  have "remove_all ?F7 (w0 @ ?F7 @ w1 @ t @ w2 @ ?F3 @ w3)
      = w0 @ remove_all ?F7 (?F7 @ w1 @ t @ w2 @ ?F3 @ w3)"
    using nb [OF assms(1)] by (intro remove_all_skip) (simp_all add: F7)
  also have "remove_all ?F7 (?F7 @ w1 @ t @ w2 @ ?F3 @ w3)
      = remove_all ?F7 (w1 @ t @ w2 @ ?F3 @ w3)"
    by (rule remove_all_prefix) (rule F7)
  also have "remove_all ?F7 (w1 @ t @ w2 @ ?F3 @ w3)
      = w1 @ remove_all ?F7 (t @ w2 @ ?F3 @ w3)"
    using nb [OF assms(2)] by (intro remove_all_skip) (simp_all add: F7)
  also have "remove_all ?F7 (t @ w2 @ ?F3 @ w3) = ?y @ w2 @ ?F3 @ w3"
    using F7(1) tail by (rule remove_all_append_no_last)
  finally have step1: "remove_all ?F7 (w0 @ ?F7 @ w1 @ t @ w2 @ ?F3 @ w3)
      = (w0 @ w1) @ ?y @ w2 @ ?F3 @ w3"
    by simp
  have b3: "0x60 \<notin> set w3"
    using nb [OF assms(4)] by blast
  have inner: "remove_all ?F3 (?y @ w2 @ ?F3 @ w3) = remove_all ?F3 ?y @ w2 @ w3"
  proof (cases w2)
    case Nil
    then show ?thesis
      using remove_triple_fence [OF b3, of ?y] by (simp add: fence)
  next
    case (Cons c w2')
    then have c: "c \<noteq> 0x60" and w2': "\<forall>c\<in>set w2'. c \<noteq> 0x60"
      using nb [OF assms(3)] by simp_all
    have "remove_all ?F3 (c # w2' @ ?F3 @ w3) = c # w2' @ remove_all ?F3 (?F3 @ w3)"
      using remove_all_skip [of ?F3 "c # w2'" "?F3 @ w3"] c w2' by (simp add: fence)
    also have "remove_all ?F3 (?F3 @ w3) = w3"
      using remove_triple_fence [OF b3, of "[]"] by (simp add: fence)
    finally have "remove_all ?F3 (c # w2' @ ?F3 @ w3) = c # w2' @ w3" .
    with remove_triple_split [OF c, of ?y "w2' @ ?F3 @ w3"] Cons show ?thesis
      by (simp add: fence)
  qed
  have "remove_all ?F3 ((w0 @ w1) @ ?y @ w2 @ ?F3 @ w3)
      = (w0 @ w1) @ remove_all ?F3 (?y @ w2 @ ?F3 @ w3)"
    using nb [OF assms(1)] nb [OF assms(2)]
    by (intro remove_all_skip) (auto simp: fence)
  with inner have step2: "remove_all ?F3 ((w0 @ w1) @ ?y @ w2 @ ?F3 @ w3)
      = (w0 @ w1) @ remove_all ?F3 ?y @ (w2 @ w3)"
    by simp
  have "trim ((w0 @ w1) @ remove_all ?F3 ?y @ (w2 @ w3)) = trim (remove_all ?F3 ?y)"
    using assms by (intro trim_spaces_around) auto
  with step1 step2 have "jsonString (w0 @ ?F7 @ w1 @ t @ w2 @ ?F3 @ w3) = jsonString t"
    by (simp add: jsonString_def)
  then show ?thesis by simp
qed

theorem fenced_same_as_unfenced_witness:
  \<open>is_js_space 0x0A
   \<and> jsonString (js ''```json'' @ [0x0A] @ js ''{"edad":30}'' @ [0x0A] @ js ''```'')
       = jsonString (js ''{"edad":30}'')
   \<and> jsonString (js ''{"edad":30}'') = js ''{"edad":30}''
   \<and> JSON_parse (table_platform None [(js ''{"edad":30}'', JObj [(js ''edad'', JNum 30)])])
         (jsonString (js ''```json'' @ [0x0A] @ js ''{"edad":30}'' @ [0x0A] @ js ''```''))
       = Some (JObj [(js ''edad'', JNum 30)])\<close>
proof -
  let ?t = \<open>js ''{"edad":30}''\<close>
  let ?P = "table_platform None [(?t, JObj [(js ''edad'', JNum 30)])]"
  have e: "\<forall>c\<in>set []. is_js_space c"
    by simp
  have n: "\<forall>c\<in>set [0x0A]. is_js_space c"
    by (simp add: is_js_space_def)
  have plain: "jsonString ?t = ?t"
    by (simp add: jsonString_def trim_def is_js_space_def js_def)
  have p: "JSON_parse ?P ?t = Some (JObj [(js ''edad'', JNum 30)])"
    by (simp add: table_platform_def)
  from fenced_same_as_unfenced [OF e n n e, of ?t ?P] n plain p
  show ?thesis by simp
qed

section \<open>The Binary Encoder is lossless\<close>

lemma b64_alphabet_length: "length b64_alphabet = 64"
  by (simp add: b64_alphabet_def js_def)

lemma b64_alphabet_distinct: "distinct b64_alphabet"
  by (simp add: b64_alphabet_def js_def)

lemma b64_value_char: "b64_value (b64_char n) = Some (n mod 64)"
proof -
  have "map_of (zip b64_alphabet [0..<64]) (b64_alphabet ! (n mod 64)) = Some ([0..<64] ! (n mod 64))"
    by (rule map_of_zip_nth) (simp_all add: b64_alphabet_length b64_alphabet_distinct)
  then show ?thesis
    by (simp add: b64_value_def b64_char_def)
qed

lemma b64_char_in_alphabet: "b64_char n \<in> set b64_alphabet"
  by (simp add: b64_char_def b64_alphabet_length)

lemma b64_char_not_pad: "b64_char n \<noteq> b64_pad"
proof -
  have "b64_pad \<notin> set b64_alphabet"
    by (simp add: b64_alphabet_def b64_pad_def js_def)
  with b64_char_in_alphabet [of n] show ?thesis by metis
qed

lemma b64_char_not_comma: "b64_char n \<noteq> 0x2C"
proof -
  have "0x2C \<notin> set b64_alphabet"
    by (simp add: b64_alphabet_def js_def)
  with b64_char_in_alphabet [of n] show ?thesis by metis
qed

lemma base64_no_comma: "0x2C \<notin> set (base64 bs)"
  by (induction bs rule: base64.induct)
    (simp_all add: Let_def b64_char_not_comma b64_pad_def)

lemma sextet_bounds:
  fixes x y z :: nat
  assumes "x < 256" and "y < 256" and "z < 256"
  shows "(x div 4) mod 64 = x div 4"
    and "((x mod 4) * 16 + y div 16) mod 64 = (x mod 4) * 16 + y div 16"
    and "((y mod 16) * 4 + z div 64) mod 64 = (y mod 16) * 4 + z div 64"
    and "((x mod 4) * 16) mod 64 = (x mod 4) * 16"
    and "((y mod 16) * 4) mod 64 = (y mod 16) * 4"
proof -
  have x4: "x mod 4 < 4" and y16: "y mod 16 < 16"
    by simp_all
  have xd: "x div 4 < 64" and yd: "y div 16 < 16" and zd: "z div 64 < 4"
    using assms by (simp_all add: div_less_iff_less_mult)
  show "(x div 4) mod 64 = x div 4"
    using xd by simp
  show "((x mod 4) * 16 + y div 16) mod 64 = (x mod 4) * 16 + y div 16"
    using x4 yd by simp
  show "((y mod 16) * 4 + z div 64) mod 64 = (y mod 16) * 4 + z div 64"
    using y16 zd by simp
  show "((x mod 4) * 16) mod 64 = (x mod 4) * 16"
    using x4 by simp
  show "((y mod 16) * 4) mod 64 = (y mod 16) * 4"
    using y16 by simp
qed

lemma first_byte:
  fixes x y :: nat
  assumes "y < 256"
  shows "(x div 4) * 4 + ((x mod 4) * 16 + y div 16) div 16 = x"
proof -
  have "y div 16 < 16"
    using assms by (simp add: div_less_iff_less_mult)
  then have "((x mod 4) * 16 + y div 16) div 16 = x mod 4"
    by simp
  then show ?thesis by simp
qed

lemma second_byte:
  fixes x y z :: nat
  assumes "y < 256" and "z < 256"
  shows "(((x mod 4) * 16 + y div 16) mod 16) * 16 + ((y mod 16) * 4 + z div 64) div 4 = y"
proof -
  have "y div 16 < 16" and "z div 64 < 4"
    using assms by (simp_all add: div_less_iff_less_mult)
  then have "((x mod 4) * 16 + y div 16) mod 16 = y div 16"
    and "((y mod 16) * 4 + z div 64) div 4 = y mod 16"
    by simp_all
  then show ?thesis by simp
qed

lemma third_byte:
  fixes y z :: nat
  assumes "z < 256"
  shows "(((y mod 16) * 4 + z div 64) mod 4) * 64 + z mod 64 = z"
proof -
  have "z div 64 < 4"
    using assms by (simp add: div_less_iff_less_mult)
  then have "((y mod 16) * 4 + z div 64) mod 4 = z div 64"
    by simp
  then show ?thesis by simp
qed

lemma unat_byte: "unat (a :: byte) < 256"
  using unsigned_less [of a] by simp

lemma byte_of_unat: "(of_nat (unat (a :: byte)) :: byte) = a"
  by simp

lemma decode_group_pad2:
  "b64_value c0 = Some v0 \<Longrightarrow> b64_value c1 = Some v1 \<Longrightarrow> v1 mod 16 = 0 \<Longrightarrow>
   base64_decode [c0, c1, b64_pad, b64_pad] = Some [of_nat (v0 * 4 + v1 div 16)]"
  by simp

lemma decode_group_pad1:
  "b64_value c0 = Some v0 \<Longrightarrow> b64_value c1 = Some v1 \<Longrightarrow> b64_value c2 = Some v2 \<Longrightarrow>
   c2 \<noteq> b64_pad \<Longrightarrow> v2 mod 4 = 0 \<Longrightarrow>
   base64_decode [c0, c1, c2, b64_pad]
     = Some [of_nat (v0 * 4 + v1 div 16), of_nat ((v1 mod 16) * 16 + v2 div 4)]"
  by simp

lemma decode_group_full:
  "b64_value c0 = Some v0 \<Longrightarrow> b64_value c1 = Some v1 \<Longrightarrow> b64_value c2 = Some v2 \<Longrightarrow>
   b64_value c3 = Some v3 \<Longrightarrow> c2 \<noteq> b64_pad \<Longrightarrow> c3 \<noteq> b64_pad \<Longrightarrow>
   base64_decode (c0 # c1 # c2 # c3 # rest)
     = map_option (\<lambda>bs. [of_nat (v0 * 4 + v1 div 16), of_nat ((v1 mod 16) * 16 + v2 div 4),
                          of_nat ((v2 mod 4) * 64 + v3)] @ bs) (base64_decode rest)"
  by (cases "base64_decode rest") simp_all


lemma decode_one: "base64_decode (base64 [a]) = Some [a]"
proof -
  let ?x = "unat a"
  have x: "?x < 256" by (rule unat_byte)
  have v0: "b64_value (b64_char (?x div 4)) = Some (?x div 4)"
    and v1: "b64_value (b64_char ((?x mod 4) * 16)) = Some ((?x mod 4) * 16)"
    using sextet_bounds [OF x x x] by (simp_all only: b64_value_char)
  have m: "((?x mod 4) * 16) mod 16 = 0"
    by simp
  have "(?x div 4) * 4 + ((?x mod 4) * 16) div 16 = ?x"
    by simp
  then have b: "(of_nat ((?x div 4) * 4 + ((?x mod 4) * 16) div 16) :: byte) = a"
    by (simp only: byte_of_unat)
  have "base64 [a] = [b64_char (?x div 4), b64_char ((?x mod 4) * 16), b64_pad, b64_pad]"
    by (simp only: base64.simps Let_def)
  then show ?thesis
    by (simp only: decode_group_pad2 [OF v0 v1 m] b)
qed

lemma decode_two: "base64_decode (base64 [a, b]) = Some [a, b]"
proof -
  let ?x = "unat a" and ?y = "unat b"
  have x: "?x < 256" and y: "?y < 256" by (rule unat_byte)+
  have v0: "b64_value (b64_char (?x div 4)) = Some (?x div 4)"
    and v1: "b64_value (b64_char ((?x mod 4) * 16 + ?y div 16)) = Some ((?x mod 4) * 16 + ?y div 16)"
    and v2: "b64_value (b64_char ((?y mod 16) * 4)) = Some ((?y mod 16) * 4)"
    using sextet_bounds [OF x y y] by (simp_all only: b64_value_char)
  have m: "((?y mod 16) * 4) mod 4 = 0"
    by simp
  have "?y div 16 < 16"
    using y by (simp add: div_less_iff_less_mult)
  then have "((?x mod 4) * 16 + ?y div 16) mod 16 = ?y div 16"
    by simp
  moreover have "((?y mod 16) * 4) div 4 = ?y mod 16"
    by simp
  ultimately have "((?x mod 4) * 16 + ?y div 16) mod 16 * 16 + ((?y mod 16) * 4) div 4 = ?y"
    by simp
  then have b2: "(of_nat (((?x mod 4) * 16 + ?y div 16) mod 16 * 16 + ((?y mod 16) * 4) div 4) :: byte) = b"
    by (simp only: byte_of_unat)
  have b1: "(of_nat ((?x div 4) * 4 + ((?x mod 4) * 16 + ?y div 16) div 16) :: byte) = a"
    by (simp only: first_byte [OF y] byte_of_unat)
  have "base64 [a, b] = [b64_char (?x div 4), b64_char ((?x mod 4) * 16 + ?y div 16),
      b64_char ((?y mod 16) * 4), b64_pad]"
    by (simp only: base64.simps Let_def)
  then show ?thesis
    by (simp only: decode_group_pad1 [OF v0 v1 v2 b64_char_not_pad m] b1 b2)
qed

lemma decode_three:
  "base64_decode (base64 (a # b # c # rest))
     = map_option (\<lambda>bs. [a, b, c] @ bs) (base64_decode (base64 rest))"
proof -
  let ?x = "unat a" and ?y = "unat b" and ?z = "unat c"
  have x: "?x < 256" and y: "?y < 256" and z: "?z < 256" by (rule unat_byte)+
  have v0: "b64_value (b64_char (?x div 4)) = Some (?x div 4)"
    and v1: "b64_value (b64_char ((?x mod 4) * 16 + ?y div 16)) = Some ((?x mod 4) * 16 + ?y div 16)"
    and v2: "b64_value (b64_char ((?y mod 16) * 4 + ?z div 64)) = Some ((?y mod 16) * 4 + ?z div 64)"
    using sextet_bounds [OF x y z] by (simp_all only: b64_value_char)
  have v3: "b64_value (b64_char (?z mod 64)) = Some (?z mod 64)"
    by (simp only: b64_value_char mod_mod_trivial)
  have b1: "(of_nat ((?x div 4) * 4 + ((?x mod 4) * 16 + ?y div 16) div 16) :: byte) = a"
    by (simp only: first_byte [OF y] byte_of_unat)
  have b2: "(of_nat (((?x mod 4) * 16 + ?y div 16) mod 16 * 16
               + ((?y mod 16) * 4 + ?z div 64) div 4) :: byte) = b"
    by (simp only: second_byte [OF y z] byte_of_unat)
  have b3: "(of_nat (((?y mod 16) * 4 + ?z div 64) mod 4 * 64 + ?z mod 64) :: byte) = c"
    by (simp only: third_byte [OF z] byte_of_unat)
  have "base64 (a # b # c # rest) =
      b64_char (?x div 4) # b64_char ((?x mod 4) * 16 + ?y div 16)
      # b64_char ((?y mod 16) * 4 + ?z div 64) # b64_char (?z mod 64) # base64 rest"
    by (simp only: base64.simps Let_def append_Cons append_Nil)
  then show ?thesis
    by (simp only: decode_group_full [OF v0 v1 v2 v3 b64_char_not_pad b64_char_not_pad] b1 b2 b3)
qed

lemma base64_roundtrip: "base64_decode (base64 bs) = Some bs"
proof (induction bs rule: base64.induct)
  case 1
  show ?case by simp
next
  case (2 a)
  show ?case by (rule decode_one)
next
  case (3 a b)
  show ?case by (rule decode_two)
next
  case (4 a b c rest)
  then show ?case by (simp only: decode_three option.map append_Cons append_Nil)
qed

lemma split_on_none: "sep \<notin> set s \<Longrightarrow> split_on sep s = [s]"
  by (induction s) auto

lemma split_on_first:
  "sep \<notin> set pre \<Longrightarrow> split_on sep (pre @ sep # post) = pre # split_on sep post"
  by (induction pre) auto

lemma data_url_pieces:
  assumes "0x2C \<notin> set (type f)"
  shows "split_on 0x2C (readAsDataURL f)
    = [js ''data:'' @ type f @ js '';base64'', base64 (bytes f)]"
proof -
  have pre: "0x2C \<notin> set (js ''data:'' @ type f @ js '';base64'')"
    using assms by (simp add: js_def)
  have "readAsDataURL f = (js ''data:'' @ type f @ js '';base64'') @ 0x2C # base64 (bytes f)"
    by (simp add: readAsDataURL_def js_def)
  then show ?thesis
    by (simp only: split_on_first [OF pre] split_on_none [OF base64_no_comma])
qed

text \<open>
  The camera path always stores a file of type \<open>image/jpeg\<close>; a type with a comma in
  it would make \<open>split(',')[1]\<close> return a piece of the header instead of the payload.
\<close>

lemma comma_in_type_breaks_split:
  "data (fileToGenerativePart \<lparr>name = js ''x'', type = js ''a,b'', bytes = [0x4D]\<rparr>)
     = Some (js ''b;base64'')"
  by (simp add: fileToGenerativePart_def readAsDataURL_def nth_opt_def js_def)

text \<open>
  C8: for every file whose MIME type is free of commas (as every media type is), the
  \<open>data\<close> of the part built by \<open>fileToGenerativePart\<close> is the base64 text of the
  file's bytes, decoding it gives the bytes back exactly, and the part carries the
  file's own MIME type. No condition is put on the bytes.
\<close>

theorem binary_encoder_lossless:
  assumes "0x2C \<notin> set (type f)"
  shows "data (fileToGenerativePart f) = Some (base64 (bytes f))
    \<and> Option.bind (data (fileToGenerativePart f)) base64_decode = Some (bytes f)
    \<and> mimeType (fileToGenerativePart f) = type f"
  by (simp add: fileToGenerativePart_def data_url_pieces [OF assms] nth_opt_def
      base64_roundtrip)

theorem binary_encoder_lossless_witness:
  "data (fileToGenerativePart example_file) = Some (js ''TWFu'')
   \<and> Option.bind (data (fileToGenerativePart example_file)) base64_decode
       = Some [0x4D, 0x61, 0x6E]
   \<and> mimeType (fileToGenerativePart example_file) = js ''image/png''"
proof -
  have c: "0x2C \<notin> set (type example_file)"
    by (simp add: example_file_def js_def)
  have e: "base64 [0x4D, 0x61, 0x6E] = js ''TWFu''"
    by (simp add: js_def b64_char_def b64_alphabet_def)
  have t: "type example_file = js ''image/png''"
    and b: "bytes example_file = [0x4D, 0x61, 0x6E]"
    by (simp_all add: example_file_def)
  from binary_encoder_lossless [OF c, unfolded b t e] show ?thesis .
qed

end
